theory Spec2Isabelle
  imports Main
begin

section \<open>JavaScript values used by the components\<close>

text \<open>
  Strings are lists of characters. A value of TypeScript type \<open>string | null | undefined\<close>
  is a \<open>string option\<close>, with \<open>None\<close> for both \<open>null\<close> and \<open>undefined\<close>. Such a value is
  truthy when it is a non-empty string.
\<close>

definition truthy :: "string option \<Rightarrow> bool" where
  "truthy v = (case v of None \<Rightarrow> False | Some s \<Rightarrow> s \<noteq> [])"

text \<open>\<open>a || b\<close> on two optional strings.\<close>

definition orElse :: "string option \<Rightarrow> string option \<Rightarrow> string option" where
  "orElse a b = (if truthy a then a else b)"



text \<open>
  \<open>String.prototype.toLowerCase\<close>, on the letters \<open>A\<close> to \<open>Z\<close>; every other character is
  kept. \<open>startsWith\<close> and \<open>includes\<close> are the prefix and the substring tests.
\<close>

definition toLowerChar :: "char \<Rightarrow> char" where
  "toLowerChar c =
     (let n = (of_char c :: nat) in if 65 \<le> n \<and> n \<le> 90 then char_of (n + 32) else c)"

definition toLowerCase :: "string \<Rightarrow> string" where
  "toLowerCase s = map toLowerChar s"

fun startsWith :: "string \<Rightarrow> string \<Rightarrow> bool" where
  "startsWith s [] = True"
| "startsWith [] (p # ps) = False"
| "startsWith (c # cs) (p # ps) = (c = p \<and> startsWith cs ps)"

fun includes_str :: "string \<Rightarrow> string \<Rightarrow> bool" where
  "includes_str [] p = (p = [])"
| "includes_str (c # cs) p = (startsWith (c # cs) p \<or> includes_str cs p)"

section \<open>Document extraction: the prefill record\<close>

text \<open>
  The \<open>kyc_data\<close> object of the extraction service's reply, read by
  \<open>prefillFormWithKYCData\<close>. Its \<open>name\<close> is an array of strings, a single string, or
  absent; every other field the function reads is an optional string.
\<close>

datatype js_name = NameArray "string list" | NameString string | NameAbsent

record kyc_data =
  name :: js_name
  gender :: "string option"
  date_of_birth :: "string option"
  dob :: "string option"
  mobile_number :: "string option"
  phone :: "string option"
  mobile :: "string option"
  aadhaar_number :: "string option"
  aadhaar :: "string option"
  uid :: "string option"
  address :: "string option"
  pan_number :: "string option"
  pan :: "string option"

text \<open>The \<open>formData\<close> object handed to the \<open>prefillData\<close> callback.\<close>

record prefill_data =
  name :: "string list"
  gender :: "string option"
  dateOfBirth :: "string option"
  mobileNumber :: "string option"
  aadhaarNumber :: "string option"
  address :: "string option"
  panNumber :: "string option"

text \<open>
  \<open>Array.isArray(kycData.name) ? kycData.name : kycData.name ? [kycData.name] : []\<close>
\<close>

definition formData_name :: "js_name \<Rightarrow> string list" where
  "formData_name n =
     (case n of
        NameArray parts \<Rightarrow> parts
      | NameString s \<Rightarrow> (if s \<noteq> [] then [s] else [])
      | NameAbsent \<Rightarrow> [])"

text \<open>
  \<open>kycData.gender ? (kycData.gender.toLowerCase().includes('male') ? 'Male' :
     kycData.gender.toLowerCase().includes('female') ? 'Female' : kycData.gender) : null\<close>
\<close>

definition formData_gender :: "string option \<Rightarrow> string option" where
  "formData_gender g =
     (case g of
        None \<Rightarrow> None
      | Some t \<Rightarrow>
          (if t = [] then None
           else if includes_str (toLowerCase t) ''male'' then Some ''Male''
           else if includes_str (toLowerCase t) ''female'' then Some ''Female''
           else Some t))"

definition kycFormData :: "kyc_data \<Rightarrow> prefill_data" where
  "kycFormData k =
     \<lparr> prefill_data.name = formData_name (kyc_data.name k),
       prefill_data.gender = formData_gender (kyc_data.gender k),
       dateOfBirth = orElse (date_of_birth k) (orElse (dob k) None),
       mobileNumber = orElse (mobile_number k) (orElse (phone k) (orElse (mobile k) None)),
       aadhaarNumber = orElse (aadhaar_number k) (orElse (aadhaar k) (orElse (uid k) None)),
       prefill_data.address = orElse (kyc_data.address k) None,
       panNumber = orElse (pan_number k) (orElse (pan k) None) \<rparr>"

section \<open>The form's accumulated record\<close>

text \<open>\<open>FormDataState\<close> of the KYC form, with its nested objects.\<close>

record address_state =
  street :: string
  city :: string
  state :: string
  zipCode :: string
  country :: string

record personal_info =
  firstName :: string
  lastName :: string
  dateOfBirth :: string
  nationality :: string
  phoneNumber :: string
  address :: address_state

datatype document_type = passport | drivers_license | national_id






definition kyc0 :: kyc_data where
  "kyc0 =
     \<lparr> kyc_data.name = NameString ''John Smith'', kyc_data.gender = Some ''Non-binary'',
       date_of_birth = Some ''2000-02-02'', dob = None, mobile_number = None,
       phone = Some ''9876543210'', mobile = None, aadhaar_number = None, aadhaar = None,
       uid = None, kyc_data.address = None, pan_number = None, pan = None \<rparr>"

definition kyc1 :: kyc_data where
  "kyc1 = kyc0\<lparr> kyc_data.gender := Some ''MALE'', date_of_birth := Some [] \<rparr>"

section \<open>The face-verification component\<close>

text \<open>
  \<open>FaceVerification\<close> is a React component: its state variables, the two refs and the
  props it reads form the record \<open>world\<close>, together with what the handlers do to their
  surroundings. \<open>liveStreams\<close> holds the media streams that were acquired and whose tracks
  have not been stopped; the \<open>pending\<close> counters hold the requests that were sent and
  whose reply has not come back; \<open>trace\<close> lists, in order, the calls the handlers
  made: network requests, camera requests, console output, alerts and the callbacks
  of the parent. A status message is modelled without the pictograph that opens it.
\<close>

type_synonym stream = nat

record js_file =
  file_name :: string
  file_type :: string
  file_size :: nat

record video_element =
  srcObject :: "stream option"

datatype media_error = PermissionDenied | DeviceUnavailable | PlayRejected

type_synonym form_fields = "(string \<times> string) list"

type_synonym lead = "(string \<times> string) list"

text \<open>
  The replies of the three services. A liveness reply is a failure (the request is
  rejected, the status is not ok, or the body is not JSON) or the fields \<open>live\<close>,
  \<open>reason\<close> and \<open>frames_collected\<close> of the body. An extraction reply is a failure or
  \<open>response.ok\<close> with the fields \<open>success\<close> and \<open>kyc_data\<close>. A match reply is a failure
  with its message, or the status, the status text, \<open>verified\<close> and the similarity
  text \<open>(1 - distance).toFixed(2)\<close> when \<open>distance\<close> is a number.
\<close>

datatype liveness_reply =
    LivenessFailed
  | LivenessData bool "string option" "nat option"

datatype extract_reply =
    ExtractFailed
  | ExtractData bool bool "kyc_data option"

datatype verify_reply =
    VerifyFailed string
  | VerifyData nat string bool "string option"

datatype effect =
    Status string
  | Alert media_error
  | GetUserMedia
  | StopTracks stream
  | DetectionSend
  | LivenessPost form_fields
  | LivenessResult liveness_reply
  | LivenessError
  | ExtractPost js_file string
  | VerifyPost js_file "string option"
  | OnVerified bool
  | PrefillData prefill_data

record world =
  cameraActive :: bool
  faceDetected :: bool
  liveDetected :: bool
  documentFile :: "js_file option"
  loading :: bool
  extractingData :: bool
  statusMsg :: string
  livenessDone :: bool
  extractedLeads :: "lead list"
  verificationAttempted :: bool
  selectedLeadIndex :: nat
  prop_onVerified :: bool
  prop_prefillData :: bool
  videoRef :: "video_element option"
  canvasRef :: bool
  auth_token :: "string option"
  liveStreams :: "stream list"
  pendingLiveness :: nat
  pendingExtract :: nat
  pendingVerify :: nat
  trace :: "effect list"

definition emit :: "effect \<Rightarrow> world \<Rightarrow> world" where
  "emit e w = w\<lparr> trace := trace w @ [e] \<rparr>"

definition notify :: "string \<Rightarrow> world \<Rightarrow> world" where
  "notify msg w = (emit (Status msg) w)\<lparr> statusMsg := msg \<rparr>"

text \<open>The component as mounted, after its reset effect, with neither prop given.\<close>

definition initial :: world where
  "initial =
     \<lparr> cameraActive = False, faceDetected = False, liveDetected = False,
       documentFile = None, loading = False, extractingData = False, statusMsg = [],
       livenessDone = False, extractedLeads = [], verificationAttempted = False,
       selectedLeadIndex = 0, prop_onVerified = False, prop_prefillData = False,
       videoRef = None, canvasRef = False, auth_token = None, liveStreams = [],
       pendingLiveness = 0, pendingExtract = 0, pendingVerify = 0, trace = [] \<rparr>"

subsection \<open>Starting the camera\<close>

text \<open>
  \<open>handleStartCamera\<close> is split where it awaits \<open>getUserMedia\<close>. Up to there
  (\<open>startRequested\<close>) a stream attached to the video element is stopped and detached
  and the camera is requested. From the outcome on (\<open>startResolved\<close>, with whether
  \<open>play()\<close> resolves) the stream is attached to the video element, if one is mounted,
  and the state is set. Every failure ends in the \<open>catch\<close>, which alerts the error and
  changes no state variable. \<open>handleStartCamera\<close> itself is the handler whose request
  is answered before anything else happens.
\<close>

definition stopOldStream :: "world \<Rightarrow> world" where
  "stopOldStream w =
     (case videoRef w of
        None \<Rightarrow> w
      | Some v \<Rightarrow>
          (case srcObject v of
             None \<Rightarrow> w
           | Some oldStream \<Rightarrow>
               (emit (StopTracks oldStream) w)
                 \<lparr> liveStreams := removeAll oldStream (liveStreams w),
                   videoRef := Some (v\<lparr> srcObject := None \<rparr>) \<rparr>))"

definition cameraStarted :: "world \<Rightarrow> world" where
  "cameraStarted w =
     notify ''Camera started. Please look into the camera...''
       (w\<lparr> cameraActive := True, liveDetected := False, livenessDone := False \<rparr>)"

definition startRequested :: "world \<Rightarrow> world" where
  "startRequested w = emit GetUserMedia (stopOldStream w)"

definition startResolved :: "media_error + stream \<Rightarrow> bool \<Rightarrow> world \<Rightarrow> world" where
  "startResolved acquired played w1 =
     (case acquired of
        Inl err \<Rightarrow> emit (Alert err) w1
      | Inr s \<Rightarrow>
          (let w2 = w1\<lparr> liveStreams := s # liveStreams w1 \<rparr> in
           case videoRef w2 of
             None \<Rightarrow> cameraStarted w2
           | Some v \<Rightarrow>
               (let w3 = w2\<lparr> videoRef := Some (v\<lparr> srcObject := Some s \<rparr>) \<rparr> in
                if played then cameraStarted w3 else emit (Alert PlayRejected) w3)))"

definition handleStartCamera :: "media_error + stream \<Rightarrow> bool \<Rightarrow> world \<Rightarrow> world" where
  "handleStartCamera acquired played w = startResolved acquired played (startRequested w)"

subsection \<open>Presence detection\<close>

text \<open>
  A detection result is the number of detections, \<open>None\<close> when the \<open>detections\<close> field
  is absent. The callback given to \<open>onResults\<close> is created by the effect of one
  render and reads the \<open>faceDetected\<close> of that render: \<open>seen\<close> below. It keeps that
  value until a change of \<open>cameraActive\<close>, \<open>faceDetected\<close> or \<open>livenessDone\<close> makes the
  effect run again and register a new callback. The callback returns at once when
  the canvas or the video element is missing; otherwise it sets \<open>faceDetected\<close>, and
  notifies, when the result differs from \<open>seen\<close>. Drawing on the canvas is left out.
\<close>

type_synonym detection_results = "nat option"

definition present :: "detection_results \<Rightarrow> bool" where
  "present r = (case r of None \<Rightarrow> False | Some n \<Rightarrow> 0 < n)"

definition onResults :: "bool \<Rightarrow> detection_results \<Rightarrow> world \<Rightarrow> world" where
  "onResults seen results w =
     (if \<not> canvasRef w \<or> videoRef w = None then w
      else if present results then
        (if \<not> seen
         then notify ''Face detected! Checking liveness...'' (w\<lparr> faceDetected := True \<rparr>)
         else w)
      else
        (if seen
         then notify ''Face lost. Please look into the camera.'' (w\<lparr> faceDetected := False \<rparr>)
         else w))"

text \<open>The camera's \<open>onFrame\<close>: the frame is sent to the detector, which calls \<open>onResults\<close>.\<close>

definition onFrame :: "bool \<Rightarrow> detection_results \<Rightarrow> world \<Rightarrow> world" where
  "onFrame seen results w =
     (if videoRef w = None then w else onResults seen results (emit DetectionSend w))"

subsection \<open>The liveness probe\<close>

text \<open>
  A number inside a template literal: its decimal digits, as JavaScript prints a
  count below \<open>10^21\<close>.
\<close>

definition digit_char :: "nat \<Rightarrow> char" where
  "digit_char d = char_of (of_char (CHR ''0'') + d)"

function numberToString :: "nat \<Rightarrow> string" where
  "numberToString n =
     (if 10 \<le> n then numberToString (n div 10) @ [digit_char (n mod 10)]
      else [digit_char n])"
  by pat_completeness auto
termination
  by (relation "measure (\<lambda>n. n)") auto

declare numberToString.simps [simp del]

text \<open>
  What capturing the current video frame gives: no canvas context, no JPEG blob, or
  the blob.
\<close>

datatype capture = NoContext | NoBlob | Captured

definition liveness_form :: form_fields where
  "liveness_form = [(''frame'', ''frame.jpg''), (''user_id'', ''user123'')]"

text \<open>
  \<open>sendLivenessFrame\<close> up to its request; it returns silently when the frame cannot
  be captured. The request is not awaited by the timer.
\<close>

definition sendLivenessFrame :: "capture \<Rightarrow> world \<Rightarrow> world" where
  "sendLivenessFrame captured w =
     (if videoRef w = None \<or> livenessDone w then w
      else if captured \<noteq> Captured then w
      else (emit (LivenessPost liveness_form) w)\<lparr> pendingLiveness := pendingLiveness w + 1 \<rparr>)"

text \<open>The callback of \<open>livenessInterval\<close>, every 500 ms.\<close>

definition livenessInterval :: "capture \<Rightarrow> world \<Rightarrow> world" where
  "livenessInterval captured w =
     (if videoRef w \<noteq> None \<and> faceDetected w \<and> \<not> livenessDone w \<and> cameraActive w
      then sendLivenessFrame captured w else w)"

text \<open>\<open>sendLivenessFrame\<close> from the reply on.\<close>

definition livenessReplied :: "liveness_reply \<Rightarrow> world \<Rightarrow> world" where
  "livenessReplied reply w =
     (case reply of
        LivenessFailed \<Rightarrow> emit LivenessError w
      | LivenessData live reason frames_collected \<Rightarrow>
          (let w1 = emit (LivenessResult reply) w in
           if live then
             notify ''Liveness confirmed! You can now verify.''
               (w1\<lparr> liveDetected := True, livenessDone := True \<rparr>)
           else if reason = Some ''collecting_frames'' then
             (case frames_collected of
                None \<Rightarrow> w1
              | Some n \<Rightarrow>
                  (if n mod 5 = 0
                   then notify (''Collecting frames... ('' @ numberToString n @ '')'') w1
                   else w1))
           else if reason = Some ''No face detected'' then
             notify ''Please keep your face in view.'' w1
           else w1))"

subsection \<open>Document upload and extraction\<close>

definition prefillFormWithKYCData :: "kyc_data \<Rightarrow> world \<Rightarrow> world" where
  "prefillFormWithKYCData kycData w =
     (if prop_prefillData w then emit (PrefillData (kycFormData kycData)) w else w)"

definition authorization :: "string option \<Rightarrow> string" where
  "authorization token =
     (case token of None \<Rightarrow> [] | Some t \<Rightarrow> (if t = [] then [] else ''Bearer '' @ t))"

text \<open>The \<open>Authorization\<close> header that is set only when a token is stored.\<close>

definition bearer :: "string option \<Rightarrow> string option" where
  "bearer token =
     (case token of None \<Rightarrow> None
      | Some t \<Rightarrow> (if t = [] then None else Some (''Bearer '' @ t)))"

text \<open>\<open>extractLeadsData\<close> up to its request.\<close>

definition extractLeadsData :: "js_file \<Rightarrow> world \<Rightarrow> world" where
  "extractLeadsData f w =
     (let w1 = notify ''Extracting KYC data from document...''
                 (w\<lparr> extractingData := True, extractedLeads := [] \<rparr>)
      in (emit (ExtractPost f (authorization (auth_token w1))) w1)
           \<lparr> pendingExtract := pendingExtract w1 + 1 \<rparr>)"

text \<open>\<open>extractLeadsData\<close> from the reply on, with its \<open>finally\<close>.\<close>

definition extractReplied :: "extract_reply \<Rightarrow> world \<Rightarrow> world" where
  "extractReplied reply w =
     (let w1 =
        (case reply of
           ExtractFailed \<Rightarrow> notify ''Could not extract data automatically.'' w
         | ExtractData ok success kycData \<Rightarrow>
             (case kycData of
                None \<Rightarrow> w
              | Some k \<Rightarrow>
                  (if ok \<and> success
                   then notify ''KYC data extracted successfully!'' (prefillFormWithKYCData k w)
                   else w)))
      in w1\<lparr> extractingData := False \<rparr>)"

text \<open>
  \<open>handleDocumentUpload\<close>, on the first file of the input, if any. The two checks come
  before anything else.
\<close>

definition handleDocumentUpload :: "js_file option \<Rightarrow> world \<Rightarrow> world" where
  "handleDocumentUpload files w =
     (case files of
        None \<Rightarrow> w
      | Some f \<Rightarrow>
          (if \<not> startsWith (file_type f) ''image/'' then
             notify ''Please upload an image file'' w
           else if 5 * 1024 * 1024 < file_size f then
             notify ''File size should be less than 5MB'' w
           else extractLeadsData f (w\<lparr> documentFile := Some f, selectedLeadIndex := 0 \<rparr>)))"

subsection \<open>The face match\<close>

text \<open>The \<open>catch\<close> and \<open>finally\<close> of \<open>handleVerify\<close>.\<close>

definition onVerified :: "bool \<Rightarrow> world \<Rightarrow> world" where
  "onVerified success w = (if prop_onVerified w then emit (OnVerified success) w else w)"

definition verifyCaught :: "string \<Rightarrow> world \<Rightarrow> world" where
  "verifyCaught message w = (onVerified False (notify message w))\<lparr> loading := False \<rparr>"

text \<open>
  \<open>handleVerify\<close> up to its request; it throws when the video element is missing or
  the selfie cannot be captured.
\<close>

definition handleVerify :: "capture \<Rightarrow> world \<Rightarrow> world" where
  "handleVerify captured w =
     (case documentFile w of
        None \<Rightarrow> notify ''Please upload your document first.'' w
      | Some doc \<Rightarrow>
          (if \<not> liveDetected w then
             notify ''Please wait for liveness detection to complete.'' w
           else
             (let w1 = notify ''Verifying face match...''
                         (w\<lparr> loading := True, verificationAttempted := True \<rparr>)
              in if videoRef w1 = None then verifyCaught ''Camera not available'' w1
                 else
                   (case captured of
                      NoContext \<Rightarrow> verifyCaught ''Could not create canvas context'' w1
                    | NoBlob \<Rightarrow> verifyCaught ''Could not capture selfie image'' w1
                    | Captured \<Rightarrow>
                        (emit (VerifyPost doc (bearer (auth_token w1))) w1)
                          \<lparr> pendingVerify := pendingVerify w1 + 1 \<rparr>))))"

text \<open>\<open>handleVerify\<close> from the reply on.\<close>

definition verifyReplied :: "verify_reply \<Rightarrow> world \<Rightarrow> world" where
  "verifyReplied reply w =
     (case reply of
        VerifyFailed message \<Rightarrow> verifyCaught message w
      | VerifyData status statusText verified similarity \<Rightarrow>
          (if status = 401 then verifyCaught ''Authentication failed. Please log in again.'' w
           else if \<not> (200 \<le> status \<and> status \<le> 299) then
             verifyCaught (''Server error: '' @ numberToString status @ '' - '' @ statusText) w
           else if verified then
             (onVerified True
                (notify ''Face verified successfully! Moving to next step...'' w))
               \<lparr> loading := False \<rparr>
           else
             (onVerified False
                (notify (''Face does not match document photo.''
                   @ (case similarity of None \<Rightarrow> []
                      | Some t \<Rightarrow> '' (Similarity: '' @ t @ '')'')) w))
               \<lparr> loading := False \<rparr>))"

subsection \<open>Events\<close>

text \<open>
  The component reacts to one event at a time. After each one React renders: the video
  element and the canvas are mounted exactly while \<open>cameraActive\<close> holds. The camera's
  frame loop and the liveness timer are set up by an effect that returns at once
  unless \<open>cameraActive\<close> holds, and that depends on \<open>cameraActive\<close>, \<open>faceDetected\<close> and
  \<open>livenessDone\<close>. When one of the three has changed, the clean-up that the effect
  returned runs after the render: it clears the timer, stops the camera utility, and
  stops and detaches the stream attached to the video element; then the effect runs
  again. So at the start of an event the callbacks in place are those of the latest
  render, and the \<open>faceDetected\<close> they read is that of the state. A reply is delivered
  only to a request that is pending. The stream that the MediaPipe camera utility
  opens for itself belongs to that library and is not part of \<open>liveStreams\<close>.
\<close>

datatype event =
    StartCamera "media_error + stream" bool
  | Frame detection_results
  | Tick capture
  | LivenessReply liveness_reply
  | Upload "js_file option"
  | ExtractReply extract_reply
  | Verify capture
  | VerifyReply verify_reply

definition render :: "world \<Rightarrow> world" where
  "render w =
     (if cameraActive w then
        w\<lparr> videoRef := (case videoRef w of None \<Rightarrow> Some \<lparr> srcObject = None \<rparr> | Some v \<Rightarrow> Some v),
          canvasRef := True \<rparr>
      else w\<lparr> videoRef := None, canvasRef := False \<rparr>)"

definition handle :: "event \<Rightarrow> world \<Rightarrow> world" where
  "handle e w =
     (case e of
        StartCamera acquired played \<Rightarrow> handleStartCamera acquired played w
      | Frame results \<Rightarrow> (if cameraActive w then onFrame (faceDetected w) results w else w)
      | Tick captured \<Rightarrow> (if cameraActive w then livenessInterval captured w else w)
      | LivenessReply reply \<Rightarrow>
          (if pendingLiveness w = 0 then w
           else livenessReplied reply (w\<lparr> pendingLiveness := pendingLiveness w - 1 \<rparr>))
      | Upload files \<Rightarrow> handleDocumentUpload files w
      | ExtractReply reply \<Rightarrow>
          (if pendingExtract w = 0 then w
           else extractReplied reply (w\<lparr> pendingExtract := pendingExtract w - 1 \<rparr>))
      | Verify captured \<Rightarrow> handleVerify captured w
      | VerifyReply reply \<Rightarrow>
          (if pendingVerify w = 0 then w
           else verifyReplied reply (w\<lparr> pendingVerify := pendingVerify w - 1 \<rparr>)))"

definition effectDeps :: "world \<Rightarrow> bool \<times> bool \<times> bool" where
  "effectDeps w = (cameraActive w, faceDetected w, livenessDone w)"

text \<open>
  The clean-up function of the effect, as far as the component's own stream goes: the
  same stopping and detaching as at the head of \<open>handleStartCamera\<close>.
\<close>

definition effectCleanup :: "world \<Rightarrow> world" where
  "effectCleanup w = stopOldStream w"

text \<open>
  After the render that follows an event handled in \<open>before\<close>: the clean-up runs when a
  dependency has changed and the effect had been set up, that is when the camera was
  active.
\<close>

definition rerunEffect :: "world \<Rightarrow> world \<Rightarrow> world" where
  "rerunEffect before w =
     (if effectDeps w \<noteq> effectDeps before \<and> cameraActive before then effectCleanup w else w)"

definition step :: "event \<Rightarrow> world \<Rightarrow> world" where
  "step e w = rerunEffect w (render (handle e w))"

fun exec :: "event list \<Rightarrow> world \<Rightarrow> world" where
  "exec [] w = w"
| "exec (e # es) w = exec es (step e w)"

text \<open>
  Starting the camera with its await made visible. The Start button is rendered only
  while \<open>cameraActive\<close> is false, so a click is possible only then; a click runs
  \<open>handleStartCamera\<close> up to its request, and the outcome of a pending request resumes
  it. The number paired with the component counts the pending camera requests.
\<close>

datatype start_event =
    StartClick
  | StartResolved "media_error + stream" bool

definition start_step :: "start_event \<Rightarrow> nat \<times> world \<Rightarrow> nat \<times> world" where
  "start_step e pw =
     (case pw of
        (pending, w) \<Rightarrow>
          (case e of
             StartClick \<Rightarrow>
               (if cameraActive w then (pending, w)
                else (pending + 1, rerunEffect w (render (startRequested w))))
           | StartResolved acquired played \<Rightarrow>
               (if pending = 0 then (pending, w)
                else (pending - 1, rerunEffect w (render (startResolved acquired played w))))))"

fun start_exec :: "start_event list \<Rightarrow> nat \<times> world \<Rightarrow> nat \<times> world" where
  "start_exec [] pw = pw"
| "start_exec (e # es) pw = start_exec es (start_step e pw)"

text \<open>What a trace holds of each kind of call.\<close>

definition liveness_posts :: "effect list \<Rightarrow> form_fields list" where
  "liveness_posts t = concat (map (\<lambda>e. case e of LivenessPost f \<Rightarrow> [f] | _ \<Rightarrow> []) t)"

definition verify_posts :: "effect list \<Rightarrow> js_file list" where
  "verify_posts t = concat (map (\<lambda>e. case e of VerifyPost f h \<Rightarrow> [f] | _ \<Rightarrow> []) t)"

definition extract_posts :: "effect list \<Rightarrow> js_file list" where
  "extract_posts t = concat (map (\<lambda>e. case e of ExtractPost f h \<Rightarrow> [f] | _ \<Rightarrow> []) t)"

definition detection_sends :: "effect list \<Rightarrow> nat" where
  "detection_sends t = length (filter (\<lambda>e. e = DetectionSend) t)"

definition camera_requests :: "effect list \<Rightarrow> nat" where
  "camera_requests t = length (filter (\<lambda>e. e = GetUserMedia) t)"

definition alerts :: "effect list \<Rightarrow> media_error list" where
  "alerts t = concat (map (\<lambda>e. case e of Alert err \<Rightarrow> [err] | _ \<Rightarrow> []) t)"

definition liveness_replies :: "effect list \<Rightarrow> nat" where
  "liveness_replies t =
     length (filter (\<lambda>e. case e of LivenessResult r \<Rightarrow> True | LivenessError \<Rightarrow> True
                          | _ \<Rightarrow> False) t)"

definition statuses :: "effect list \<Rightarrow> string list" where
  "statuses t = concat (map (\<lambda>e. case e of Status m \<Rightarrow> [m] | _ \<Rightarrow> []) t)"

subsection \<open>Kinds of events, states of the probe and example runs\<close>

definition is_live_reply :: "event \<Rightarrow> bool" where
  "is_live_reply e = (case e of LivenessReply (LivenessData live r n) \<Rightarrow> live | _ \<Rightarrow> False)"

definition is_start :: "event \<Rightarrow> bool" where
  "is_start e = (case e of StartCamera a p \<Rightarrow> True | _ \<Rightarrow> False)"

text \<open>The timer submits frames exactly in the states that satisfy \<open>probing\<close>.\<close>

definition probing :: "world \<Rightarrow> bool" where
  "probing w = (cameraActive w \<and> faceDetected w \<and> \<not> livenessDone w \<and> videoRef w \<noteq> None)"

definition liveness_results :: "effect list \<Rightarrow> liveness_reply list" where
  "liveness_results t = concat (map (\<lambda>e. case e of LivenessResult r \<Rightarrow> [r] | _ \<Rightarrow> []) t)"

definition user_ids :: "effect list \<Rightarrow> string option list" where
  "user_ids t = map (\<lambda>f. map_of f ''user_id'') (liveness_posts t)"

definition collecting :: "nat \<Rightarrow> liveness_reply" where
  "collecting n = LivenessData False (Some ''collecting_frames'') (Some n)"

definition live :: liveness_reply where
  "live = LivenessData True None None"


text \<open>\<open>n\<close> rounds of a sampling tick whose request then fails.\<close>

definition error_rounds :: "nat \<Rightarrow> event list" where
  "error_rounds n = concat (replicate n [Tick Captured, LivenessReply LivenessFailed])"



text \<open>
  The component once the camera has started, and once a face has been detected.
\<close>

definition started0 :: world where
  "started0 =
     \<lparr> cameraActive = True, faceDetected = False, liveDetected = False,
       documentFile = None, loading = False, extractingData = False,
       statusMsg = ''Camera started. Please look into the camera...'',
       livenessDone = False, extractedLeads = [], verificationAttempted = False,
       selectedLeadIndex = 0, prop_onVerified = False, prop_prefillData = False,
       videoRef = Some \<lparr> srcObject = None \<rparr>, canvasRef = True, auth_token = None,
       liveStreams = [1],
       pendingLiveness = 0, pendingExtract = 0, pendingVerify = 0,
       trace = [GetUserMedia, Status ''Camera started. Please look into the camera...''] \<rparr>"

definition probing0 :: world where
  "probing0 =
     \<lparr> cameraActive = True, faceDetected = True, liveDetected = False,
       documentFile = None, loading = False, extractingData = False,
       statusMsg = ''Face detected! Checking liveness...'',
       livenessDone = False, extractedLeads = [], verificationAttempted = False,
       selectedLeadIndex = 0, prop_onVerified = False, prop_prefillData = False,
       videoRef = Some \<lparr> srcObject = None \<rparr>, canvasRef = True, auth_token = None,
       liveStreams = [1],
       pendingLiveness = 0, pendingExtract = 0, pendingVerify = 0,
       trace = [GetUserMedia, Status ''Camera started. Please look into the camera...'',
                DetectionSend, Status ''Face detected! Checking liveness...''] \<rparr>"

definition pdf0 :: js_file where
  "pdf0 = \<lparr> file_name = ''id.pdf'', file_type = ''application/pdf'', file_size = 1000 \<rparr>"

definition big0 :: js_file where
  "big0 = \<lparr> file_name = ''id.png'', file_type = ''image/png'', file_size = 5 * 1024 * 1024 + 1 \<rparr>"

definition doc0 :: js_file where
  "doc0 = \<lparr> file_name = ''id.jpg'', file_type = ''image/jpeg'', file_size = 5 * 1024 * 1024 \<rparr>"

text \<open>Two clicks on Start before the camera answers, then the two answers.\<close>

definition double_start :: "start_event list" where
  "double_start =
     [StartClick, StartClick, StartResolved (Inr 1) True, StartResolved (Inr 2) True]"

section \<open>The conversational agent's upload handler\<close>

text \<open>
  \<open>KYCAgent\<close> keeps a conversation and the uploaded document. Its
  \<open>handleDocumentUpload\<close> is modelled up to its extraction request, which
  \<open>agent_requests\<close> records with the \<open>Authorization\<close> header.
\<close>

datatype sender = user | agent

datatype chat_node =
    TextNode string
  | RejectedNode string
  | FileNode string
  | DocumentUploadNode

datatype conversation_step =
    step_welcome
  | step_document_upload
  | step_document_processing
  | step_face_verification
  | step_verification_processing
  | step_complete

record agent_state =
  conversation :: "(sender \<times> chat_node) list"
  currentStep :: conversation_step
  extractedData :: "kyc_data option"
  formPrefillData :: "kyc_data option"
  isProcessing :: bool
  faceVerificationComplete :: bool
  showFaceVerification :: bool
  uploadedDocument :: "js_file option"
  agent_token :: "string option"
  agent_requests :: "(js_file \<times> string option) list"

definition addMessage :: "sender \<Rightarrow> chat_node \<Rightarrow> agent_state \<Rightarrow> agent_state" where
  "addMessage who node a = a\<lparr> conversation := conversation a @ [(who, node)] \<rparr>"

definition agent_handleDocumentUpload :: "js_file \<Rightarrow> agent_state \<Rightarrow> agent_state" where
  "agent_handleDocumentUpload f a =
     (if \<not> startsWith (file_type f) ''image/'' then
        addMessage agent (RejectedNode ''Please upload an image file (JPG, PNG)'') a
      else if 5 * 1024 * 1024 < file_size f then
        addMessage agent (RejectedNode ''File size should be less than 5MB'') a
      else
        (addMessage user (FileNode (file_name f)) a)
          \<lparr> uploadedDocument := Some f,
            currentStep := step_document_processing,
            isProcessing := True,
            agent_requests := agent_requests a @ [(f, bearer (agent_token a))] \<rparr>)"

definition agent0 :: agent_state where
  "agent0 =
     \<lparr> conversation = [], currentStep = step_document_upload, extractedData = None,
       formPrefillData = None, isProcessing = False, faceVerificationComplete = False,
       showFaceVerification = False, uploadedDocument = None, agent_token = None,
       agent_requests = [] \<rparr>"

section \<open>Presence changes, as the specification words them\<close>

text \<open>
  The specification's debouncing: over the presence known so far followed by the
  results fed, one transition for each pair of consecutive values that differ, named
  by the new value.
\<close>

definition transitions :: "bool \<Rightarrow> bool list \<Rightarrow> bool list" where
  "transitions known rs = map snd (filter (\<lambda>(a, b). a \<noteq> b) (zip (known # rs) rs))"

definition transition_status :: "bool \<Rightarrow> string" where
  "transition_status now =
     (if now then ''Face detected! Checking liveness...''
      else ''Face lost. Please look into the camera.'')"

text \<open>
  One registered callback receiving a list of detection results, one after the other,
  before the effect has run again: \<open>seen\<close> stays what it was at registration.
\<close>

fun feed :: "bool \<Rightarrow> detection_results list \<Rightarrow> world \<Rightarrow> world" where
  "feed seen [] w = w"
| "feed seen (r # rs) w = feed seen rs (onResults seen r w)"

section \<open>Merging extraction results into the form\<close>






section \<open>Normalising an extraction result\<close>

lemma startsWith_female_tl: "startsWith s ''female'' \<Longrightarrow> startsWith (tl (tl s)) ''male''"
proof -
  assume a: "startsWith s ''female''"
  then obtain c1 s1 where s: "s = c1 # s1" by (cases s) auto
  with a obtain c2 s2 where s1: "s1 = c2 # s2" by (cases s1) auto
  from a s s1 show ?thesis by simp
qed

lemma includes_str_tl: "includes_str (tl s) p \<Longrightarrow> p \<noteq> [] \<Longrightarrow> includes_str s p"
  by (cases s) auto

lemma startsWith_includes: "startsWith s p \<Longrightarrow> includes_str s p"
  by (cases s) (auto elim: startsWith.elims)

lemma includes_female_male: "includes_str s ''female'' \<Longrightarrow> includes_str s ''male''"
proof (induction s)
  case Nil
  then show ?case by simp
next
  case (Cons c cs)
  show ?case
  proof (cases "startsWith (c # cs) ''female''")
    case True
    then have "startsWith (tl (tl (c # cs))) ''male''" by (rule startsWith_female_tl)
    then have "includes_str (tl cs) ''male''" by (simp add: startsWith_includes)
    then have "includes_str cs ''male''" by (rule includes_str_tl) simp
    then show ?thesis by simp
  next
    case False
    from Cons.prems have "startsWith (c # cs) ''female'' \<or> includes_str cs ''female''"
      by (simp only: includes_str.simps)
    with False have "includes_str cs ''female''" by blast
    then have "includes_str cs ''male''" by (rule Cons.IH)
    then show ?thesis by simp
  qed
qed

text \<open>
  The \<open>'Female'\<close> branch of the gender mapping is never taken: a text that includes
  \<open>female\<close> includes \<open>male\<close>, which is tested first. The mapping never yields \<open>Female\<close>.
\<close>

lemma toLowerCase_Female: "toLowerCase ''Female'' = ''female''"
  by code_simp

lemma formData_gender_never_Female: "formData_gender g \<noteq> Some ''Female''"
proof (cases g)
  case None
  then show ?thesis by (simp add: formData_gender_def)
next
  case (Some t)
  show ?thesis
  proof (cases "includes_str (toLowerCase t) ''male''")
    case True
    with Some show ?thesis by (simp add: formData_gender_def)
  next
    case False
    then have nf: "\<not> includes_str (toLowerCase t) ''female''"
      using includes_female_male by blast
    have "t \<noteq> ''Female''"
    proof
      assume "t = ''Female''"
      with nf show False by (simp add: toLowerCase_Female)
    qed
    with Some False nf show ?thesis by (simp add: formData_gender_def)
  qed
qed

lemma formData_gender_Female: "formData_gender (Some ''Female'') = Some ''Male''"
  by (simp add: formData_gender_def toLowerCase_Female)

text \<open>
  C3 as stated fails: a raw name string is not split but kept as one part, and a gender
  text outside the mapping is passed through as it is, so the result is not confined
  to Male, Female, Other, Unknown.
\<close>

theorem kyc_normalization_open:
  "prefill_data.name (kycFormData kyc0) = [''John Smith'']
   \<and> prefill_data.gender (kycFormData kyc0) = Some ''Non-binary''
   \<and> prefill_data.gender (kycFormData kyc0)
       \<notin> {Some ''Male'', Some ''Female'', Some ''Other'', Some ''Unknown''}"
proof -
  have "toLowerCase ''Non-binary'' = ''non-binary''" by code_simp
  then show ?thesis
    by (simp add: kyc0_def kycFormData_def formData_name_def formData_gender_def)
qed

text \<open>
  C3, amended: the name is kept as the array the service sent, a non-empty name string
  becomes a single part and an absent or empty name becomes no part; an absent or empty
  gender becomes null, a gender text whose lower-case form does not include \<open>male\<close> is
  passed through unchanged, and one that includes \<open>male\<close> but not \<open>female\<close> becomes
  \<open>Male\<close>.
\<close>

theorem kyc_normalization:
  "(\<forall>parts. kyc_data.name k = NameArray parts \<longrightarrow> prefill_data.name (kycFormData k) = parts)
   \<and> (\<forall>s. kyc_data.name k = NameString s \<and> s \<noteq> [] \<longrightarrow>
         prefill_data.name (kycFormData k) = [s])
   \<and> (kyc_data.name k = NameAbsent \<or> kyc_data.name k = NameString [] \<longrightarrow>
         prefill_data.name (kycFormData k) = [])
   \<and> (\<not> truthy (kyc_data.gender k) \<longrightarrow> prefill_data.gender (kycFormData k) = None)
   \<and> (\<forall>t. kyc_data.gender k = Some t \<and> t \<noteq> [] \<and> \<not> includes_str (toLowerCase t) ''male'' \<longrightarrow>
         prefill_data.gender (kycFormData k) = Some t)
   \<and> (\<forall>t. kyc_data.gender k = Some t \<and> includes_str (toLowerCase t) ''male''
           \<and> \<not> includes_str (toLowerCase t) ''female'' \<longrightarrow>
         prefill_data.gender (kycFormData k) = Some ''Male'')"
proof -
  have n: "prefill_data.name (kycFormData k) = formData_name (kyc_data.name k)"
    by (simp add: kycFormData_def)
  have g: "prefill_data.gender (kycFormData k) = formData_gender (kyc_data.gender k)"
    by (simp add: kycFormData_def)
  show ?thesis
    unfolding n g
    by (auto simp: formData_name_def formData_gender_def truthy_def toLowerCase_def
        split: option.splits dest: includes_female_male)
qed

theorem kyc_normalization_witness:
  "kyc_data.name kyc1 = NameString ''John Smith''
   \<and> prefill_data.name (kycFormData kyc1) = [''John Smith'']
   \<and> kyc_data.gender kyc1 = Some ''MALE''
   \<and> includes_str (toLowerCase ''MALE'') ''male''
   \<and> \<not> includes_str (toLowerCase ''MALE'') ''female''
   \<and> prefill_data.gender (kycFormData kyc1) = Some ''Male''"
proof -
  have l: "toLowerCase ''MALE'' = ''male''" by code_simp
  have n: "kyc_data.name kyc1 = NameString ''John Smith''"
    and g: "kyc_data.gender kyc1 = Some ''MALE''"
    by (simp_all add: kyc1_def kyc0_def)
  from kyc_normalization [of kyc1] n g l show ?thesis by simp
qed


section \<open>Facts about the handlers\<close>

lemmas handler_defs = emit_def notify_def stopOldStream_def cameraStarted_def handleStartCamera_def
  startRequested_def startResolved_def
  onResults_def onFrame_def sendLivenessFrame_def livenessInterval_def livenessReplied_def
  prefillFormWithKYCData_def extractLeadsData_def extractReplied_def handleDocumentUpload_def
  onVerified_def verifyCaught_def handleVerify_def verifyReplied_def render_def handle_def step_def

lemmas effect_defs = effectDeps_def effectCleanup_def rerunEffect_def

lemmas reply_splits = option.splits sum.splits liveness_reply.splits extract_reply.splits
  verify_reply.splits capture.splits

lemma numberToString_example: "numberToString 405 = ''405''"
  by code_simp

text \<open>The probing state of the examples is reached from the initial component.\<close>

lemma started0_reached: "exec [StartCamera (Inr 1) True] initial = started0"
  by (simp add: handler_defs effect_defs initial_def started0_def Let_def)

lemma probing0_reached: "exec [StartCamera (Inr 1) True, Frame (Some 1)] initial = probing0"
  by (simp add: handler_defs effect_defs initial_def probing0_def present_def Let_def)

lemma verify_posts_append [simp]: "verify_posts (a @ b) = verify_posts a @ verify_posts b"
  by (simp add: verify_posts_def)

lemma liveness_posts_append [simp]: "liveness_posts (a @ b) = liveness_posts a @ liveness_posts b"
  by (simp add: liveness_posts_def)

lemma extract_posts_append [simp]: "extract_posts (a @ b) = extract_posts a @ extract_posts b"
  by (simp add: extract_posts_def)

lemma detection_sends_append [simp]: "detection_sends (a @ b) = detection_sends a + detection_sends b"
  by (simp add: detection_sends_def)

lemma liveness_replies_append [simp]: "liveness_replies (a @ b) = liveness_replies a + liveness_replies b"
  by (simp add: liveness_replies_def)

lemma liveness_results_append [simp]:
  "liveness_results (a @ b) = liveness_results a @ liveness_results b"
  by (simp add: liveness_results_def)

lemma statuses_append [simp]: "statuses (a @ b) = statuses a @ statuses b"
  by (simp add: statuses_def)

lemma user_ids_append: "user_ids (a @ b) = user_ids a @ user_ids b"
  by (simp add: user_ids_def)

text \<open>
  Running the effect again touches the attached stream only: the state variables, the
  pending requests and the calls other than stopping a stream are as they were.
\<close>

lemma rerunEffect_fields [simp]:
  "cameraActive (rerunEffect b w) = cameraActive w"
  "faceDetected (rerunEffect b w) = faceDetected w"
  "liveDetected (rerunEffect b w) = liveDetected w"
  "livenessDone (rerunEffect b w) = livenessDone w"
  "documentFile (rerunEffect b w) = documentFile w"
  "statusMsg (rerunEffect b w) = statusMsg w"
  "canvasRef (rerunEffect b w) = canvasRef w"
  "pendingLiveness (rerunEffect b w) = pendingLiveness w"
  "pendingVerify (rerunEffect b w) = pendingVerify w"
  "pendingExtract (rerunEffect b w) = pendingExtract w"
  "(videoRef (rerunEffect b w) = None) = (videoRef w = None)"
  by (simp_all add: effect_defs stopOldStream_def emit_def split: option.splits)

lemma rerunEffect_calls:
  "liveness_posts (trace (rerunEffect b w)) = liveness_posts (trace w)"
  "verify_posts (trace (rerunEffect b w)) = verify_posts (trace w)"
  "extract_posts (trace (rerunEffect b w)) = extract_posts (trace w)"
  "detection_sends (trace (rerunEffect b w)) = detection_sends (trace w)"
  "liveness_replies (trace (rerunEffect b w)) = liveness_replies (trace w)"
  "liveness_results (trace (rerunEffect b w)) = liveness_results (trace w)"
  "statuses (trace (rerunEffect b w)) = statuses (trace w)"
  by (simp_all add: effect_defs stopOldStream_def emit_def liveness_posts_def verify_posts_def
      extract_posts_def detection_sends_def liveness_replies_def liveness_results_def
      statuses_def split: option.splits)

lemma rerunEffect_user_ids: "user_ids (trace (rerunEffect b w)) = user_ids (trace w)"
  by (simp add: user_ids_def rerunEffect_calls)

lemmas rerunEffect_calls_unfolded =
  rerunEffect_calls [unfolded liveness_posts_def verify_posts_def extract_posts_def
    detection_sends_def liveness_replies_def liveness_results_def statuses_def]
  rerunEffect_user_ids [unfolded user_ids_def liveness_posts_def]

declare rerunEffect_calls [simp]

declare rerunEffect_user_ids [simp]

declare rerunEffect_calls_unfolded [simp]

lemma rerunEffect_same_deps:
  "effectDeps w = effectDeps b \<Longrightarrow> rerunEffect b w = w"
  by (simp add: rerunEffect_def)

section \<open>The face match waits for liveness\<close>

lemma step_keeps_unconfirmed:
  "\<not> liveDetected w \<Longrightarrow> \<not> is_live_reply e \<Longrightarrow>
     \<not> liveDetected (step e w) \<and> verify_posts (trace (step e w)) = verify_posts (trace w)"
  by (cases e)
     (auto simp: handler_defs is_live_reply_def Let_def verify_posts_def split: reply_splits)

lemma exec_keeps_unconfirmed:
  "\<not> liveDetected w \<Longrightarrow> \<forall>e \<in> set es. \<not> is_live_reply e \<Longrightarrow>
     \<not> liveDetected (exec es w) \<and> verify_posts (trace (exec es w)) = verify_posts (trace w)"
proof (induction es arbitrary: w)
  case Nil
  then show ?case by simp
next
  case (Cons e es)
  from Cons.prems have s: "\<not> liveDetected (step e w)"
    and v: "verify_posts (trace (step e w)) = verify_posts (trace w)"
    using step_keeps_unconfirmed [of w e] by simp_all
  from Cons.prems have "\<forall>e \<in> set es. \<not> is_live_reply e" by simp
  with s have "\<not> liveDetected (exec es (step e w))
      \<and> verify_posts (trace (exec es (step e w))) = verify_posts (trace (step e w))"
    by (rule Cons.IH)
  with v show ?case by simp
qed

lemma handleVerify_not_live:
  "\<not> liveDetected w \<Longrightarrow>
     handleVerify captured w
       = notify (if documentFile w = None then ''Please upload your document first.''
                 else ''Please wait for liveness detection to complete.'') w"
  by (simp add: handleVerify_def split: option.splits)

text \<open>
  C1: while \<open>liveDetected\<close> is false, \<open>handleVerify\<close> only sets the status message: it
  sends no match request and changes no other part of the component; and over any
  sequence of events that holds no live reply of the liveness service, starting where
  \<open>liveDetected\<close> is false (as it is after every start of the camera), no match request
  is sent.
\<close>

theorem verify_requires_liveness:
  "(\<not> liveDetected w \<longrightarrow>
      handleVerify captured w
        = notify (if documentFile w = None then ''Please upload your document first.''
                  else ''Please wait for liveness detection to complete.'') w
      \<and> verify_posts (trace (handleVerify captured w)) = verify_posts (trace w)
      \<and> pendingVerify (handleVerify captured w) = pendingVerify w
      \<and> (handleVerify captured w)\<lparr> statusMsg := statusMsg w, trace := trace w \<rparr> = w)
   \<and> (\<not> liveDetected w \<and> (\<forall>e \<in> set es. \<not> is_live_reply e) \<longrightarrow>
        \<not> liveDetected (exec es w)
        \<and> verify_posts (trace (exec es w)) = verify_posts (trace w))"
  using exec_keeps_unconfirmed [of w es]
  by (simp add: handleVerify_not_live notify_def emit_def verify_posts_def)

theorem verify_requires_liveness_witness:
  "\<not> liveDetected probing0
   \<and> statusMsg (handleVerify Captured (probing0\<lparr> documentFile := Some doc0 \<rparr>))
       = ''Please wait for liveness detection to complete.''
   \<and> verify_posts (trace (handleVerify Captured (probing0\<lparr> documentFile := Some doc0 \<rparr>))) = []
   \<and> verify_posts (trace (exec [Upload (Some doc0), Tick Captured, LivenessReply (collecting 1),
        Verify Captured] probing0)) = []"
  using verify_requires_liveness [of "probing0\<lparr> documentFile := Some doc0 \<rparr>" Captured "[]"]
    verify_requires_liveness [of probing0 Captured
      "[Upload (Some doc0), Tick Captured, LivenessReply (collecting 1), Verify Captured]"]
  by (simp add: probing0_def notify_def emit_def verify_posts_def is_live_reply_def collecting_def)

text \<open>Once liveness is confirmed the request is sent: the gate is not vacuous.\<close>

lemma handleVerify_when_live:
  "liveDetected w \<Longrightarrow> documentFile w = Some doc \<Longrightarrow> videoRef w \<noteq> None \<Longrightarrow>
     verify_posts (trace (handleVerify Captured w)) = verify_posts (trace w) @ [doc]"
  by (auto simp: handleVerify_def notify_def emit_def verify_posts_def Let_def)

section \<open>Validation of an uploaded file\<close>

text \<open>
  C6: a file whose type does not start with \<open>image/\<close>, or whose size is above
  5 * 1024 * 1024 bytes, is rejected by both upload handlers before any request: the
  component only sets its status message, the agent only adds a message to its
  conversation, no extraction request is sent and nothing else changes.
\<close>

theorem upload_rejected_locally:
  assumes "\<not> startsWith (file_type f) ''image/'' \<or> 5 * 1024 * 1024 < file_size f"
  shows "handleDocumentUpload (Some f) w
           = notify (if \<not> startsWith (file_type f) ''image/''
                     then ''Please upload an image file''
                     else ''File size should be less than 5MB'') w
         \<and> extract_posts (trace (handleDocumentUpload (Some f) w)) = extract_posts (trace w)
         \<and> (handleDocumentUpload (Some f) w)\<lparr> statusMsg := statusMsg w, trace := trace w \<rparr> = w
         \<and> agent_handleDocumentUpload f a
           = addMessage agent (RejectedNode (if \<not> startsWith (file_type f) ''image/''
                     then ''Please upload an image file (JPG, PNG)''
                     else ''File size should be less than 5MB'')) a
         \<and> agent_requests (agent_handleDocumentUpload f a) = agent_requests a
         \<and> (agent_handleDocumentUpload f a)\<lparr> conversation := conversation a \<rparr> = a"
  using assms
  by (auto simp: handleDocumentUpload_def agent_handleDocumentUpload_def notify_def emit_def
      extract_posts_def addMessage_def)

theorem upload_rejected_locally_witness:
  "\<not> startsWith (file_type pdf0) ''image/''
   \<and> 5 * 1024 * 1024 < file_size big0
   \<and> extract_posts (trace (handleDocumentUpload (Some pdf0) initial)) = []
   \<and> documentFile (handleDocumentUpload (Some pdf0) initial) = None
   \<and> extract_posts (trace (handleDocumentUpload (Some big0) initial)) = []
   \<and> documentFile (handleDocumentUpload (Some big0) initial) = None
   \<and> agent_requests (agent_handleDocumentUpload pdf0 agent0) = []
   \<and> agent_requests (agent_handleDocumentUpload big0 agent0) = []"
proof -
  have p: "\<not> startsWith (file_type pdf0) ''image/''" by (simp add: pdf0_def)
  have b: "5 * 1024 * 1024 < file_size big0" by (simp add: big0_def)
  from p have p': "\<not> startsWith (file_type pdf0) ''image/'' \<or> 5 * 1024 * 1024 < file_size pdf0"
    by simp
  from b have b': "\<not> startsWith (file_type big0) ''image/'' \<or> 5 * 1024 * 1024 < file_size big0"
    by simp
  from upload_rejected_locally [OF p', of initial agent0]
    upload_rejected_locally [OF b', of initial agent0] p b
  show ?thesis
    by (simp add: initial_def agent0_def notify_def emit_def extract_posts_def addMessage_def)
qed

text \<open>A file that passes both checks, the ceiling included, is stored and submitted.\<close>

lemma upload_accepted:
  "startsWith (file_type f) ''image/'' \<Longrightarrow> file_size f \<le> 5 * 1024 * 1024 \<Longrightarrow>
     extract_posts (trace (handleDocumentUpload (Some f) w)) = extract_posts (trace w) @ [f]
     \<and> documentFile (handleDocumentUpload (Some f) w) = Some f"
  by (simp add: handleDocumentUpload_def extractLeadsData_def notify_def emit_def
      extract_posts_def Let_def)


section \<open>Presence notifications\<close>

lemma transitions_Nil: "transitions known [] = []"
  by (simp add: transitions_def)

lemma transitions_Cons:
  "transitions known (r # rs) = (if known \<noteq> r then [r] else []) @ transitions r rs"
  by (simp add: transitions_def)

text \<open>
  C9: exactly one transition event is emitted for each change between absent and
  present, and a result equal to the one before it emits none. The code breaks this
  where one registered callback receives two results before the effect has run again:
  registered while no face was detected, and given two results with a face, it
  notifies for each of them, although the results hold a single change.
\<close>

theorem presence_repeated_result_notifies:
  "canvasRef started0
   \<and> videoRef started0 \<noteq> None
   \<and> faceDetected started0 = False
   \<and> transitions (faceDetected started0) (map present [Some 1, Some 1]) = [True]
   \<and> trace (feed (faceDetected started0) [Some 1, Some 1] started0)
       = trace started0 @ [Status ''Face detected! Checking liveness...'',
                           Status ''Face detected! Checking liveness...'']"
  by (simp add: started0_def onResults_def notify_def emit_def present_def transitions_def)

text \<open>
  When the effect runs again after each result, as it does once React has rendered the
  change, the notifications are the changes of the results fed.
\<close>

lemma frame_step_presence:
  "cameraActive w \<Longrightarrow> canvasRef w \<Longrightarrow> videoRef w \<noteq> None \<Longrightarrow>
     cameraActive (step (Frame r) w) \<and> canvasRef (step (Frame r) w)
     \<and> videoRef (step (Frame r) w) \<noteq> None
     \<and> faceDetected (step (Frame r) w) = present r
     \<and> statuses (trace (step (Frame r) w))
         = statuses (trace w) @ map transition_status
                                 (if faceDetected w \<noteq> present r then [present r] else [])"
  by (auto simp: handler_defs transition_status_def statuses_def split: option.splits)

lemma presence_debounced_between_renders:
  "cameraActive w \<Longrightarrow> canvasRef w \<Longrightarrow> videoRef w \<noteq> None \<Longrightarrow>
     statuses (trace (exec (map Frame rs) w))
       = statuses (trace w) @ map transition_status
                               (transitions (faceDetected w) (map present rs))"
proof (induction rs arbitrary: w)
  case Nil
  then show ?case by (simp add: transitions_Nil)
next
  case (Cons r rs)
  note f = frame_step_presence [OF Cons.prems, of r]
  from f have m: "cameraActive (step (Frame r) w)" "canvasRef (step (Frame r) w)"
    "videoRef (step (Frame r) w) \<noteq> None" by simp_all
  from Cons.IH [OF m] f show ?case
    by (simp add: transitions_Cons)
qed

section \<open>The identifier sent with a liveness frame\<close>

lemma step_user_ids:
  "user_ids (trace (step e w)) = user_ids (trace w)
   \<or> user_ids (trace (step e w)) = user_ids (trace w) @ [Some ''user123'']"
  by (cases e)
     (auto simp: handler_defs Let_def user_ids_def liveness_posts_def liveness_form_def
        split: reply_splits)

lemma exec_user_ids:
  "\<exists>n. user_ids (trace (exec es w)) = user_ids (trace w) @ replicate n (Some ''user123'')"
proof (induction es arbitrary: w)
  case Nil
  have "user_ids (trace w) = user_ids (trace w) @ replicate 0 (Some ''user123'')" by simp
  then show ?case unfolding exec.simps by blast
next
  case (Cons e es)
  from Cons.IH [of "step e w"] obtain n where
    n: "user_ids (trace (exec es (step e w)))
          = user_ids (trace (step e w)) @ replicate n (Some ''user123'')" by blast
  from step_user_ids [of e w] show ?case
  proof
    assume "user_ids (trace (step e w)) = user_ids (trace w)"
    with n show ?thesis by auto
  next
    assume "user_ids (trace (step e w)) = user_ids (trace w) @ [Some ''user123'']"
    with n have "user_ids (trace (exec (e # es) w))
        = user_ids (trace w) @ replicate (Suc n) (Some ''user123'')" by simp
    then show ?thesis by blast
  qed
qed

lemma run_user_ids:
  "user_ids (trace (exec es (initial\<lparr> auth_token := token \<rparr>)))
     = replicate (length (user_ids (trace (exec es (initial\<lparr> auth_token := token \<rparr>)))))
         (Some ''user123'')"
proof -
  have "user_ids (trace (initial\<lparr> auth_token := token \<rparr>)) = []"
    by (simp add: initial_def user_ids_def liveness_posts_def)
  with exec_user_ids [of es "initial\<lparr> auth_token := token \<rparr>"] obtain n where
    "user_ids (trace (exec es (initial\<lparr> auth_token := token \<rparr>)))
       = replicate n (Some ''user123'')"
    by auto
  then show ?thesis by simp
qed

text \<open>
  C10: every liveness submission carries the form field \<open>user_id\<close> with the fixed value
  \<open>user123\<close>. Whenever a frame is captured while the video element is mounted and
  liveness is not done, the submission is made and carries that value, and so does
  the submission of every tick of a probing component; in the runs of any two
  sessions, whatever their events and whoever is logged in, every submitted
  identifier is that same string.
\<close>

theorem liveness_user_id_fixed:
  "(videoRef w \<noteq> None \<and> \<not> livenessDone w \<longrightarrow>
      trace (sendLivenessFrame Captured w)
        = trace w @ [LivenessPost [(''frame'', ''frame.jpg''), (''user_id'', ''user123'')]])
   \<and> (probing w \<longrightarrow>
        user_ids (trace (step (Tick Captured) w)) = user_ids (trace w) @ [Some ''user123''])
   \<and> (trace (sendLivenessFrame captured w) = trace w
      \<or> trace (sendLivenessFrame captured w)
          = trace w @ [LivenessPost [(''frame'', ''frame.jpg''), (''user_id'', ''user123'')]])
   \<and> user_ids (trace (exec es (initial\<lparr> auth_token := token \<rparr>)))
       = replicate (length (user_ids (trace (exec es (initial\<lparr> auth_token := token \<rparr>)))))
           (Some ''user123'')
   \<and> user_ids (trace (exec es' (initial\<lparr> auth_token := token' \<rparr>)))
       = replicate (length (user_ids (trace (exec es' (initial\<lparr> auth_token := token' \<rparr>)))))
           (Some ''user123'')"
proof -
  have 1: "videoRef w \<noteq> None \<and> \<not> livenessDone w \<longrightarrow>
      trace (sendLivenessFrame Captured w)
        = trace w @ [LivenessPost [(''frame'', ''frame.jpg''), (''user_id'', ''user123'')]]"
    by (simp add: sendLivenessFrame_def emit_def liveness_form_def)
  have 2: "probing w \<longrightarrow>
        user_ids (trace (step (Tick Captured) w)) = user_ids (trace w) @ [Some ''user123'']"
    by (auto simp: handler_defs probing_def user_ids_def liveness_posts_def liveness_form_def)
  have 3: "trace (sendLivenessFrame captured w) = trace w
      \<or> trace (sendLivenessFrame captured w)
          = trace w @ [LivenessPost [(''frame'', ''frame.jpg''), (''user_id'', ''user123'')]]"
    by (simp add: sendLivenessFrame_def emit_def liveness_form_def)
  from 1 2 3 run_user_ids [of es token] run_user_ids [of es' token'] show ?thesis
    by (intro conjI)
qed

theorem liveness_user_id_fixed_witness:
  "probing (probing0\<lparr> auth_token := Some ''alice'' \<rparr>)
   \<and> probing (probing0\<lparr> auth_token := Some ''bob'' \<rparr>)
   \<and> user_ids (trace (step (Tick Captured) (probing0\<lparr> auth_token := Some ''alice'' \<rparr>)))
       = [Some ''user123'']
   \<and> user_ids (trace (step (Tick Captured) (probing0\<lparr> auth_token := Some ''bob'' \<rparr>)))
       = [Some ''user123'']
   \<and> user_ids (trace (exec [StartCamera (Inr 1) True, Frame (Some 1), Tick Captured,
        Tick Captured] (initial\<lparr> auth_token := Some ''alice'' \<rparr>)))
       = [Some ''user123'', Some ''user123'']"
proof -
  have a: "probing (probing0\<lparr> auth_token := Some ''alice'' \<rparr>)"
    and b: "probing (probing0\<lparr> auth_token := Some ''bob'' \<rparr>)"
    by (simp_all add: probing_def probing0_def)
  have e: "user_ids (trace (probing0\<lparr> auth_token := Some ''alice'' \<rparr>)) = []"
    "user_ids (trace (probing0\<lparr> auth_token := Some ''bob'' \<rparr>)) = []"
    by (simp_all add: probing0_def user_ids_def liveness_posts_def)
  note ta = liveness_user_id_fixed [of "probing0\<lparr> auth_token := Some ''alice'' \<rparr>" Captured
      "[StartCamera (Inr 1) True, Frame (Some 1), Tick Captured, Tick Captured]"
      "Some ''alice''" "[]" None]
  note tb = liveness_user_id_fixed [of "probing0\<lparr> auth_token := Some ''bob'' \<rparr>" Captured
      "[]" None "[]" None]
  from ta a e
  have ua: "user_ids (trace (step (Tick Captured) (probing0\<lparr> auth_token := Some ''alice'' \<rparr>)))
       = [Some ''user123'']" by simp
  from tb b e
  have ub: "user_ids (trace (step (Tick Captured) (probing0\<lparr> auth_token := Some ''bob'' \<rparr>)))
       = [Some ''user123'']" by simp
  have l: "length (user_ids (trace (exec [StartCamera (Inr 1) True, Frame (Some 1),
        Tick Captured, Tick Captured] (initial\<lparr> auth_token := Some ''alice'' \<rparr>)))) = 2"
    by code_simp
  from ta have "user_ids (trace (exec [StartCamera (Inr 1) True, Frame (Some 1), Tick Captured,
        Tick Captured] (initial\<lparr> auth_token := Some ''alice'' \<rparr>)))
     = replicate (length (user_ids (trace (exec [StartCamera (Inr 1) True, Frame (Some 1),
        Tick Captured, Tick Captured] (initial\<lparr> auth_token := Some ''alice'' \<rparr>)))))
         (Some ''user123'')" by blast
  then have r: "user_ids (trace (exec [StartCamera (Inr 1) True, Frame (Some 1), Tick Captured,
        Tick Captured] (initial\<lparr> auth_token := Some ''alice'' \<rparr>)))
       = [Some ''user123'', Some ''user123'']"
    unfolding l by (simp add: numeral_2_eq_2)
  from a b ua ub r show ?thesis by (intro conjI)
qed

lemma two_users_one_key:
  "user_ids (trace (exec [Tick Captured] (probing0\<lparr> auth_token := Some ''alice'' \<rparr>)))
     = [Some ''user123'']
   \<and> user_ids (trace (exec [Tick Captured] (probing0\<lparr> auth_token := Some ''bob'' \<rparr>)))
     = [Some ''user123'']"
  by (simp add: handler_defs effect_defs probing0_def user_ids_def liveness_posts_def
      liveness_form_def)


section \<open>A rejected camera request\<close>

lemma step_inactive:
  "\<not> cameraActive w \<Longrightarrow> \<not> is_start e \<Longrightarrow>
     \<not> cameraActive (step e w)
     \<and> detection_sends (trace (step e w)) = detection_sends (trace w)
     \<and> liveness_posts (trace (step e w)) = liveness_posts (trace w)"
  by (cases e)
     (auto simp: handler_defs is_start_def Let_def detection_sends_def liveness_posts_def
        split: reply_splits)

lemma exec_inactive:
  "\<not> cameraActive w \<Longrightarrow> \<forall>e \<in> set es. \<not> is_start e \<Longrightarrow>
     \<not> cameraActive (exec es w)
     \<and> detection_sends (trace (exec es w)) = detection_sends (trace w)
     \<and> liveness_posts (trace (exec es w)) = liveness_posts (trace w)"
proof (induction es arbitrary: w)
  case Nil
  then show ?case by simp
next
  case (Cons e es)
  from Cons.prems have s: "\<not> cameraActive (step e w)"
    and c: "detection_sends (trace (step e w)) = detection_sends (trace w)"
       "liveness_posts (trace (step e w)) = liveness_posts (trace w)"
    using step_inactive [of w e] by simp_all
  from Cons.prems have "\<forall>e \<in> set es. \<not> is_start e" by simp
  from Cons.IH [OF s this] c show ?case by simp
qed

lemma start_rejected:
  "handleStartCamera (Inl err) played w = emit (Alert err) (emit GetUserMedia (stopOldStream w))"
  by (simp add: handleStartCamera_def startRequested_def startResolved_def)

lemma start_rejected_step:
  "\<not> cameraActive w \<Longrightarrow>
     \<not> cameraActive (step (StartCamera (Inl err) played) w)
     \<and> detection_sends (trace (step (StartCamera (Inl err) played) w)) = detection_sends (trace w)
     \<and> liveness_posts (trace (step (StartCamera (Inl err) played) w)) = liveness_posts (trace w)"
  by (auto simp: handler_defs Let_def detection_sends_def liveness_posts_def split: reply_splits)

text \<open>
  C8: when the camera request is rejected with \<open>PermissionDenied\<close> while the camera is
  not active, \<open>handleStartCamera\<close> alerts that error and changes no state variable: the
  session has failed with the camera inactive. Whatever events follow, short of a new
  start of the camera, no frame is sent to the presence detector and no liveness
  frame is submitted.
\<close>

theorem permission_denied_ends_session:
  assumes "\<not> cameraActive w" and "\<forall>e \<in> set es. \<not> is_start e"
  shows "trace (handleStartCamera (Inl PermissionDenied) played w)
           = trace (stopOldStream w) @ [GetUserMedia, Alert PermissionDenied]
         \<and> \<not> cameraActive (handleStartCamera (Inl PermissionDenied) played w)
         \<and> faceDetected (handleStartCamera (Inl PermissionDenied) played w) = faceDetected w
         \<and> liveDetected (handleStartCamera (Inl PermissionDenied) played w) = liveDetected w
         \<and> livenessDone (handleStartCamera (Inl PermissionDenied) played w) = livenessDone w
         \<and> \<not> cameraActive (exec es (step (StartCamera (Inl PermissionDenied) played) w))
         \<and> detection_sends
             (trace (exec es (step (StartCamera (Inl PermissionDenied) played) w)))
             = detection_sends (trace w)
         \<and> liveness_posts
             (trace (exec es (step (StartCamera (Inl PermissionDenied) played) w)))
             = liveness_posts (trace w)"
proof -
  let ?w = "step (StartCamera (Inl PermissionDenied) played) w"
  from assms(1) have a: "\<not> cameraActive ?w"
    and c: "detection_sends (trace ?w) = detection_sends (trace w)"
       "liveness_posts (trace ?w) = liveness_posts (trace w)"
    using start_rejected_step [of w PermissionDenied played] by simp_all
  from exec_inactive [OF a assms(2)] c
  have r: "\<not> cameraActive (exec es ?w)
     \<and> detection_sends (trace (exec es ?w)) = detection_sends (trace w)
     \<and> liveness_posts (trace (exec es ?w)) = liveness_posts (trace w)" by simp
  from assms(1) have h: "trace (handleStartCamera (Inl PermissionDenied) played w)
           = trace (stopOldStream w) @ [GetUserMedia, Alert PermissionDenied]
         \<and> \<not> cameraActive (handleStartCamera (Inl PermissionDenied) played w)
         \<and> faceDetected (handleStartCamera (Inl PermissionDenied) played w) = faceDetected w
         \<and> liveDetected (handleStartCamera (Inl PermissionDenied) played w) = liveDetected w
         \<and> livenessDone (handleStartCamera (Inl PermissionDenied) played w) = livenessDone w"
    by (auto simp: start_rejected emit_def stopOldStream_def split: option.splits)
  from h r show ?thesis by blast
qed

theorem permission_denied_ends_session_witness:
  "\<not> cameraActive initial
   \<and> trace (handleStartCamera (Inl PermissionDenied) True initial)
       = [GetUserMedia, Alert PermissionDenied]
   \<and> liveness_posts (trace (exec [Frame (Some 1), Tick Captured, Upload (Some doc0), Verify Captured,
        LivenessReply live, Tick Captured]
        (step (StartCamera (Inl PermissionDenied) True) initial))) = []
   \<and> detection_sends (trace (exec [Frame (Some 1), Tick Captured, Upload (Some doc0), Verify Captured,
        LivenessReply live, Tick Captured]
        (step (StartCamera (Inl PermissionDenied) True) initial))) = 0"
proof -
  have a: "\<not> cameraActive initial" by (simp add: initial_def)
  have b: "\<forall>e \<in> set [Frame (Some 1), Tick Captured, Upload (Some doc0), Verify Captured,
        LivenessReply live, Tick Captured]. \<not> is_start e"
    by (simp add: is_start_def)
  from permission_denied_ends_session [OF a b, of True] a show ?thesis
    by (simp add: initial_def stopOldStream_def detection_sends_def liveness_posts_def)
qed

section \<open>The liveness probe: replies in turn and in flight\<close>

lemma tick_submits:
  "probing w \<Longrightarrow>
     probing (step (Tick Captured) w)
     \<and> liveDetected (step (Tick Captured) w) = liveDetected w
     \<and> pendingLiveness (step (Tick Captured) w) = pendingLiveness w + 1
     \<and> trace (step (Tick Captured) w) = trace w @ [LivenessPost liveness_form]"
  by (simp add: handler_defs effect_defs probing_def split: option.splits)













section \<open>Failed liveness submissions\<close>

lemma failed_reply:
  "probing w \<Longrightarrow> 0 < pendingLiveness w \<Longrightarrow>
     probing (step (LivenessReply LivenessFailed) w)
     \<and> liveDetected (step (LivenessReply LivenessFailed) w) = liveDetected w
     \<and> statusMsg (step (LivenessReply LivenessFailed) w) = statusMsg w
     \<and> pendingLiveness (step (LivenessReply LivenessFailed) w) = pendingLiveness w - 1
     \<and> liveness_posts (trace (step (LivenessReply LivenessFailed) w))
         = liveness_posts (trace w)"
  by (simp add: handler_defs probing_def Let_def liveness_posts_def split: option.splits)

lemma failed_round:
  assumes "probing w"
  shows "probing (step (LivenessReply LivenessFailed) (step (Tick Captured) w))
    \<and> liveDetected (step (LivenessReply LivenessFailed) (step (Tick Captured) w)) = liveDetected w
    \<and> length (liveness_posts (trace (step (LivenessReply LivenessFailed) (step (Tick Captured) w))))
        = length (liveness_posts (trace w)) + 1"
proof -
  note t = tick_submits [OF assms]
  from t have p: "probing (step (Tick Captured) w)"
    and q: "0 < pendingLiveness (step (Tick Captured) w)" by simp_all
  from failed_reply [OF p q] t show ?thesis
    by (simp add: liveness_posts_def)
qed

lemma error_rounds_Suc:
  "exec (error_rounds (Suc n)) w
     = exec (error_rounds n) (step (LivenessReply LivenessFailed) (step (Tick Captured) w))"
  by (simp add: error_rounds_def)

lemma error_rounds_probing:
  "probing w \<Longrightarrow>
     probing (exec (error_rounds n) w)
     \<and> liveDetected (exec (error_rounds n) w) = liveDetected w
     \<and> length (liveness_posts (trace (exec (error_rounds n) w)))
         = length (liveness_posts (trace w)) + n"
proof (induction n arbitrary: w)
  case 0
  then show ?case by (simp add: error_rounds_def)
next
  case (Suc n)
  note r = failed_round [OF Suc.prems]
  from r have p: "probing (step (LivenessReply LivenessFailed) (step (Tick Captured) w))" by blast
  from Suc.IH [OF p] r show ?case unfolding error_rounds_Suc by simp
qed

text \<open>
  C5 as stated fails: after 25 failed submissions in a row the probe is unresolved and
  still probing, and the next tick submits a 26th frame.
\<close>

theorem liveness_errors_unbounded:
  "probing probing0
   \<and> probing (exec (error_rounds 25) probing0)
   \<and> \<not> liveDetected (exec (error_rounds 25) probing0)
   \<and> \<not> livenessDone (exec (error_rounds 25) probing0)
   \<and> length (liveness_posts (trace (exec (error_rounds 25 @ [Tick Captured]) probing0))) = 26"
  by code_simp

text \<open>
  C5, amended: a failed submission is logged and nothing else: the probe continues.
  No count of consecutive errors is kept and no failure is ever resolved: after any
  number \<open>n\<close> of failed submissions in a row the probe is still probing, liveness is
  as it was, and \<open>n\<close> frames have been submitted.
\<close>

theorem liveness_errors_ignored:
  "livenessReplied LivenessFailed w = emit LivenessError w
   \<and> (probing w \<longrightarrow>
        probing (exec (error_rounds n) w)
        \<and> \<not> livenessDone (exec (error_rounds n) w)
        \<and> liveDetected (exec (error_rounds n) w) = liveDetected w
        \<and> length (liveness_posts (trace (exec (error_rounds n) w)))
            = length (liveness_posts (trace w)) + n)"
  using error_rounds_probing [of w n]
  by (simp add: livenessReplied_def probing_def)

theorem liveness_errors_ignored_witness:
  "probing probing0
   \<and> probing (exec (error_rounds 3) probing0)
   \<and> \<not> liveDetected (exec (error_rounds 3) probing0)
   \<and> length (liveness_posts (trace (exec (error_rounds 3) probing0))) = 3"
proof -
  have p: "probing probing0" by (simp add: probing_def probing0_def)
  have l: "liveness_posts (trace probing0) = []" "\<not> liveDetected probing0"
    by (simp_all add: probing0_def liveness_posts_def)
  from liveness_errors_ignored [of probing0 3] p l show ?thesis by simp
qed

section \<open>Starting the camera again\<close>

lemma alerts_append [simp]: "alerts (a @ b) = alerts a @ alerts b"
  by (simp add: alerts_def)

lemma camera_requests_append [simp]:
  "camera_requests (a @ b) = camera_requests a + camera_requests b"
  by (simp add: camera_requests_def)

lemma stopOldStream_calls:
  "alerts (trace (stopOldStream w)) = alerts (trace w)
   \<and> camera_requests (trace (stopOldStream w)) = camera_requests (trace w)"
  by (simp add: stopOldStream_def emit_def alerts_def camera_requests_def split: option.splits)

lemma start_click_active:
  "cameraActive w \<Longrightarrow> start_step StartClick (pending, w) = (pending, w)"
  by (simp add: start_step_def)

lemma start_click_inactive:
  "\<not> cameraActive w \<Longrightarrow> videoRef w = None \<Longrightarrow>
     fst (start_step StartClick (pending, w)) = pending + 1
     \<and> trace (snd (start_step StartClick (pending, w))) = trace w @ [GetUserMedia]
     \<and> \<not> cameraActive (snd (start_step StartClick (pending, w)))
     \<and> videoRef (snd (start_step StartClick (pending, w))) = None"
  by (simp add: start_step_def handler_defs effect_defs)

text \<open>
  C7 as stated fails: a second start, made while the first is still waiting for the
  camera, raises no error and requests the camera again.
\<close>

theorem start_while_starting_requests_again:
  "fst (start_exec [StartClick] (0, initial)) = 1
   \<and> \<not> cameraActive (snd (start_exec [StartClick] (0, initial)))
   \<and> fst (start_exec [StartClick, StartClick] (0, initial)) = 2
   \<and> trace (snd (start_exec [StartClick, StartClick] (0, initial)))
       = [GetUserMedia, GetUserMedia]
   \<and> trace (snd (start_exec double_start (0, initial)))
       = [GetUserMedia, GetUserMedia,
          Status ''Camera started. Please look into the camera...'',
          Status ''Camera started. Please look into the camera...'']
   \<and> alerts (trace (snd (start_exec double_start (0, initial)))) = []"
  by (simp add: double_start_def start_step_def handler_defs effect_defs initial_def Let_def
      alerts_def)

text \<open>
  C7, amended: a start is offered only while the camera is not active, so none can be
  made once it is; \<open>handleStartCamera\<close> itself has no check for a start already made and
  never fails fast: whatever the state and however many requests are pending, it
  alerts nothing and requests the camera, and a click made while the camera is not
  active and an earlier request is pending adds one more request.
\<close>

theorem start_never_fails_fast:
  "(cameraActive w \<longrightarrow> start_step StartClick (pending, w) = (pending, w))
   \<and> (\<not> cameraActive w \<and> videoRef w = None \<longrightarrow>
        fst (start_step StartClick (pending, w)) = pending + 1
        \<and> trace (snd (start_step StartClick (pending, w))) = trace w @ [GetUserMedia])
   \<and> alerts (trace (startRequested w)) = alerts (trace w)
   \<and> camera_requests (trace (startRequested w)) = camera_requests (trace w) + 1"
proof -
  have 1: "cameraActive w \<longrightarrow> start_step StartClick (pending, w) = (pending, w)"
    using start_click_active [of w pending] by simp
  have 2: "\<not> cameraActive w \<and> videoRef w = None \<longrightarrow>
        fst (start_step StartClick (pending, w)) = pending + 1
        \<and> trace (snd (start_step StartClick (pending, w))) = trace w @ [GetUserMedia]"
    using start_click_inactive [of w pending] by simp
  have 3: "alerts (trace (startRequested w)) = alerts (trace w)"
    and 4: "camera_requests (trace (startRequested w)) = camera_requests (trace w) + 1"
    using stopOldStream_calls [of w]
    by (simp_all add: startRequested_def emit_def alerts_def camera_requests_def)
  from 1 2 3 4 show ?thesis by (intro conjI)
qed

theorem start_never_fails_fast_witness:
  "cameraActive started0
   \<and> start_step StartClick (0, started0) = (0, started0)
   \<and> \<not> cameraActive (snd (start_step StartClick (0, initial)))
   \<and> videoRef (snd (start_step StartClick (0, initial))) = None
   \<and> fst (start_step StartClick (start_step StartClick (0, initial))) = 2
   \<and> trace (snd (start_step StartClick (start_step StartClick (0, initial))))
       = [GetUserMedia, GetUserMedia]"
proof -
  define w1 where "w1 = rerunEffect initial (render (startRequested initial))"
  have a: "cameraActive started0" by (simp add: started0_def)
  have i: "\<not> cameraActive initial" "videoRef initial = None" "trace initial = []"
    by (simp_all add: initial_def)
  have p: "start_step StartClick (0, initial) = (1, w1)"
    by (simp add: start_step_def i w1_def)
  have c: "\<not> cameraActive w1" "videoRef w1 = None" "trace w1 = [GetUserMedia]"
    using start_click_inactive [of initial 0] i by (simp_all add: p)
  from start_never_fails_fast [of started0 0] a
  have s: "start_step StartClick (0, started0) = (0, started0)" by simp
  from start_never_fails_fast [of w1 1] c
  have t: "fst (start_step StartClick (1, w1)) = 2"
    "trace (snd (start_step StartClick (1, w1))) = [GetUserMedia, GetUserMedia]"
    by simp_all
  from a s c(1) c(2) t show ?thesis by (simp add: p)
qed

text \<open>
  Apart from that, the stream a start acquires while no video element is mounted is
  attached to nothing and is never stopped; after the two answers above two streams
  are live.
\<close>

lemma start_unmounted:
  "videoRef w = None \<Longrightarrow>
     liveStreams (handleStartCamera (Inr s) played w) = s # liveStreams w
     \<and> videoRef (handleStartCamera (Inr s) played w) = None
     \<and> cameraActive (handleStartCamera (Inr s) played w)"
  by (simp add: handler_defs Let_def)

lemma double_start_two_live_streams:
  "liveStreams (snd (start_exec double_start (0, initial))) = [2, 1]
   \<and> videoRef (snd (start_exec double_start (0, initial))) = Some \<lparr> srcObject = Some 2 \<rparr>"
  by (simp add: double_start_def start_step_def handler_defs effect_defs initial_def Let_def)

end
